theory Spec2Isabelle
  imports Main "HOL-Library.AList" "HOL-Library.Char_ord" "HOL-Library.List_Lexorder"
begin

section \<open>Python strings: \<open>str.split\<close> and \<open>str.join\<close> on a one-character separator\<close>

text \<open>
  A Python \<open>str\<close> is a \<^typ>\<open>string\<close>. \<open>s.split(",")\<close> cuts at every separator and
  keeps empty pieces, so it never returns the empty list: \<open>"".split(",") == [""]\<close>.
  \<open>",".join(xs)\<close> puts one separator between neighbours. \<open>sorted\<close> on strings is the
  lexicographic order on characters, which is the order of \<^typ>\<open>string\<close> here.
\<close>

fun py_split :: "char \<Rightarrow> string \<Rightarrow> string list" where
  "py_split sep [] = [[]]"
| "py_split sep (c # cs) =
     (if c = sep then [] # py_split sep cs
      else (c # hd (py_split sep cs)) # tl (py_split sep cs))"

fun py_join :: "string \<Rightarrow> string list \<Rightarrow> string" where
  "py_join sep [] = []"
| "py_join sep [x] = x"
| "py_join sep (x # y # ys) = x @ sep @ py_join sep (y # ys)"

section \<open>Python values\<close>

text \<open>
  What \<open>json.loads\<close> returns: \<open>None\<close>, a bool, an int, a float, a string, a list or a
  dict with string keys. A dict keeps insertion order: it is an association list, read by
  \<^const>\<open>map_of\<close> and written by \<^const>\<open>AList.update\<close> (in place for a key that is
  there, at the end for a new one). No operation here computes with floats; a float is
  held as its \<open>repr\<close>, which determines it, and it is zero when that is \<open>0.0\<close> or
  \<open>-0.0\<close>.
\<close>

datatype pyval =
    PNone
  | PBool bool
  | PInt int
  | PFloat string
  | PStr string
  | PList "pyval list"
  | PDict "(string \<times> pyval) list"

type_synonym pydict = "(string \<times> pyval) list"

text \<open>\<open>bool(v)\<close>, as \<open>not data[key]\<close> and \<open>if s:\<close> use it.\<close>

fun truthy :: "pyval \<Rightarrow> bool" where
  "truthy PNone = False"
| "truthy (PBool b) = b"
| "truthy (PInt i) = (i \<noteq> 0)"
| "truthy (PFloat r) = (r \<noteq> ''0.0'' \<and> r \<noteq> ''-0.0'')"
| "truthy (PStr s) = (s \<noteq> [])"
| "truthy (PList xs) = (xs \<noteq> [])"
| "truthy (PDict kvs) = (kvs \<noteq> [])"

text \<open>
  \<open>str(v)\<close>. A string is itself; everything else prints as its \<open>repr\<close>. The \<open>repr\<close>
  of a string (its quoting and escaping, which follow the Unicode tables) is the
  parameter \<open>rs\<close>.
\<close>

function show_nat :: "nat \<Rightarrow> string" where
  "show_nat n =
     (if n < 10 then [''0123456789'' ! n]
      else show_nat (n div 10) @ [''0123456789'' ! (n mod 10)])"
  by pat_completeness auto
termination
  by (relation "measure (\<lambda>n. n)") auto

definition show_int :: "int \<Rightarrow> string" where
  "show_int i = (if i < 0 then CHR ''-'' # show_nat (nat (- i)) else show_nat (nat i))"

fun py_repr :: "(string \<Rightarrow> string) \<Rightarrow> pyval \<Rightarrow> string" where
  "py_repr rs PNone = ''None''"
| "py_repr rs (PBool b) = (if b then ''True'' else ''False'')"
| "py_repr rs (PInt i) = show_int i"
| "py_repr rs (PFloat r) = r"
| "py_repr rs (PStr s) = rs s"
| "py_repr rs (PList xs) = ''['' @ py_join '', '' (map (py_repr rs) xs) @ '']''"
| "py_repr rs (PDict kvs) =
     ''{'' @ py_join '', '' (map (\<lambda>kv. rs (fst kv) @ '': '' @ py_repr rs (snd kv)) kvs) @ ''}''"

definition py_str :: "(string \<Rightarrow> string) \<Rightarrow> pyval \<Rightarrow> string" where
  "py_str rs v = (case v of PStr s \<Rightarrow> s | _ \<Rightarrow> py_repr rs v)"

section \<open>Validation of a summary (\<open>summarizer.py\<close>, \<open>_validate_summary\<close>)\<close>

definition default_links :: pyval where
  "default_links = PDict [(''abs'', PStr []), (''pdf'', PStr [])]"

definition defaults :: pydict where
  "defaults =
     [(''title_zh'', PStr ''unknown''),
      (''tldr_zh'', PStr ''unknown''),
      (''contributions_zh'', PList [PStr ''unknown'']),
      (''method_zh'', PStr ''unknown''),
      (''experiments_zh'', PStr ''unknown''),
      (''results_zh'', PStr ''unknown''),
      (''limitations_zh'', PStr ''unknown''),
      (''who_should_read_zh'', PStr ''unknown''),
      (''links'', default_links)]"

text \<open>One round of the loop \<open>for key, default in defaults.items()\<close>.\<close>

definition fill_default :: "pydict \<Rightarrow> string \<times> pyval \<Rightarrow> pydict" where
  "fill_default data kd =
     (case map_of data (fst kd) of
        None \<Rightarrow> AList.update (fst kd) (snd kd) data
      | Some v \<Rightarrow> if \<not> truthy v then AList.update (fst kd) (snd kd) data else data)"

definition wrap_contributions :: "(string \<Rightarrow> string) \<Rightarrow> pydict \<Rightarrow> pydict" where
  "wrap_contributions rs data =
     (case map_of data ''contributions_zh'' of
        Some (PList xs) \<Rightarrow> data
      | Some v \<Rightarrow> AList.update ''contributions_zh'' (PList [PStr (py_str rs v)]) data
      | None \<Rightarrow>
          AList.update ''contributions_zh'' (PList [PStr (py_str rs (PStr ''unknown''))]) data)"

definition replace_links :: "pydict \<Rightarrow> pydict" where
  "replace_links data =
     (case map_of data ''links'' of
        Some (PDict kvs) \<Rightarrow> data
      | _ \<Rightarrow> AList.update ''links'' default_links data)"

definition validate_summary :: "(string \<Rightarrow> string) \<Rightarrow> pydict \<Rightarrow> pydict" where
  "validate_summary rs data =
     replace_links (wrap_contributions rs (foldl fill_default data defaults))"

section \<open>The persistent store (\<open>db.py\<close>)\<close>

text \<open>
  A paper as the fetcher produces it: nine text fields. The \<open>papers\<close> table adds
  \<open>fetched_at\<close>. The table is a list of rows, so that the primary key is a property of
  the operations and not of the type. \<open>summaries\<close> and \<open>runs\<close> are written by
  \<open>INSERT OR REPLACE\<close> and \<open>ON CONFLICT DO UPDATE\<close>: they are maps on their key.
  \<open>_now_iso()\<close> reads the wall clock: \<open>clk n\<close> is the \<open>n\<close>-th reading, and the store
  counts the readings in \<open>tick\<close>.
\<close>

record paper =
  arxiv_id :: string
  title :: string
  authors :: string
  category :: string
  published_at :: string
  updated_at :: string
  abs_url :: string
  pdf_url :: string
  abstract :: string

record paper_row = paper +
  fetched_at :: string

record run_row =
  status :: string
  sent_channels :: string
  created_at :: string

record db =
  papers :: "paper_row list"
  summaries :: "string \<rightharpoonup> pydict"
  runs :: "string \<rightharpoonup> run_row"
  tick :: nat

definition paper_ids :: "db \<Rightarrow> string list" where
  "paper_ids d = map arxiv_id (papers d)"

definition upsert_paper :: "(nat \<Rightarrow> string) \<Rightarrow> paper \<Rightarrow> db \<Rightarrow> bool \<times> db" where
  "upsert_paper clk p d =
     (let now = clk (tick d); d' = d\<lparr>tick := Suc (tick d)\<rparr>
      in if arxiv_id p \<in> set (paper_ids d) then (False, d')
         else (True, d'\<lparr>papers := papers d @ [paper.extend p \<lparr>fetched_at = now\<rparr>]\<rparr>))"

fun upsert_papers :: "(nat \<Rightarrow> string) \<Rightarrow> paper list \<Rightarrow> db \<Rightarrow> nat \<times> db" where
  "upsert_papers clk [] d = (0, d)"
| "upsert_papers clk (p # ps) d =
     (case upsert_paper clk p d of
        (ins, d') \<Rightarrow> (case upsert_papers clk ps d' of
           (n, d'') \<Rightarrow> ((if ins then Suc n else n), d'')))"

definition has_summary :: "db \<Rightarrow> string \<Rightarrow> bool" where
  "has_summary d i = (summaries d i \<noteq> None)"

definition save_summary :: "(nat \<Rightarrow> string) \<Rightarrow> string \<Rightarrow> pydict \<Rightarrow> db \<Rightarrow> db" where
  "save_summary clk i s d = d\<lparr>summaries := (summaries d)(i \<mapsto> s), tick := Suc (tick d)\<rparr>"

definition get_summary :: "db \<Rightarrow> string \<Rightarrow> pydict option" where
  "get_summary d i = summaries d i"

definition get_run :: "db \<Rightarrow> string \<Rightarrow> run_row option" where
  "get_run d r = runs d r"

definition upsert_run :: "(nat \<Rightarrow> string) \<Rightarrow> string \<Rightarrow> string \<Rightarrow> string \<Rightarrow> db \<Rightarrow> db" where
  "upsert_run clk r st chans d =
     (let now = clk (tick d)
      in d\<lparr>runs := (runs d)(r \<mapsto>
              (case runs d r of
                 None \<Rightarrow> \<lparr>status = st, sent_channels = chans, created_at = now\<rparr>
               | Some old \<Rightarrow> old\<lparr>status := st, sent_channels := chans\<rparr>)),
           tick := Suc (tick d)\<rparr>)"

definition was_sent :: "db \<Rightarrow> string \<Rightarrow> string \<Rightarrow> bool" where
  "was_sent d r channel =
     (case get_run d r of
        None \<Rightarrow> False
      | Some run \<Rightarrow> channel \<in> set (py_split CHR '','' (sent_channels run)))"

definition mark_sent :: "(nat \<Rightarrow> string) \<Rightarrow> string \<Rightarrow> string \<Rightarrow> db \<Rightarrow> db" where
  "mark_sent clk r channel d =
     (case get_run d r of
        None \<Rightarrow> upsert_run clk r ''sent'' channel d
      | Some run \<Rightarrow>
          (let existing = filter (\<lambda>c. c \<noteq> []) (py_split CHR '','' (sent_channels run))
           in upsert_run clk r ''sent''
                (py_join '','' (sort (remdups (existing @ [channel])))) d))"

section \<open>The summarization engine (\<open>summarizer.py\<close>)\<close>

text \<open>
  Exceptions are values. \<open>except ValueError\<close> catches \<open>ValueError\<close> and its subclasses
  (\<open>json.JSONDecodeError\<close> among them); \<open>except Exception\<close> catches all three kinds.
  The model gateway is outside the program: a task's three calls are answered by
  \<open>first_json\<close> (\<open>client.chat_json(messages)\<close>), \<open>raw_chat\<close> (\<open>client.chat(messages)\<close>)
  and \<open>repair_json\<close> (\<open>client.chat_json\<close> on the repair prompt built from the raw
  reply), each either raising or returning.
\<close>

datatype exn = ValueError string | TypeError string | OtherException string

fun is_ValueError :: "exn \<Rightarrow> bool" where
  "is_ValueError (ValueError m) = True"
| "is_ValueError e = False"

record llm_replies =
  first_json :: "exn + pyval"
  raw_chat :: "exn + string"
  repair_json :: "string \<Rightarrow> exn + pyval"

text \<open>
  \<open>_validate_summary\<close> on what \<open>chat_json\<close> returned: a value that is not a dict makes
  \<open>key not in data\<close> or \<open>data[key] = default\<close> raise \<open>TypeError\<close>.
\<close>

definition validate_value :: "(string \<Rightarrow> string) \<Rightarrow> pyval \<Rightarrow> exn + pydict" where
  "validate_value rs v =
     (case v of
        PDict data \<Rightarrow> Inr (validate_summary rs data)
      | _ \<Rightarrow> Inl (TypeError ''summary is not a dict''))"

definition minimal_summary :: "(string \<Rightarrow> string) \<Rightarrow> paper \<Rightarrow> pydict" where
  "minimal_summary rs p =
     validate_summary rs
       [(''title_zh'', PStr (title p)),
        (''links'', PDict [(''abs'', PStr (abs_url p)), (''pdf'', PStr (pdf_url p))])]"

definition summarize_one :: "(string \<Rightarrow> string) \<Rightarrow> llm_replies \<Rightarrow> paper \<Rightarrow> exn + pydict" where
  "summarize_one rs replies p =
     (case first_json replies of
        Inr result \<Rightarrow> validate_value rs result
      | Inl e \<Rightarrow>
          if is_ValueError e then
            (case raw_chat replies of
               Inl e1 \<Rightarrow> Inr (minimal_summary rs p)
             | Inr raw \<Rightarrow>
                 (case repair_json replies raw of
                    Inl e2 \<Rightarrow> Inr (minimal_summary rs p)
                  | Inr result \<Rightarrow>
                      (case validate_value rs result of
                         Inl e3 \<Rightarrow> Inr (minimal_summary rs p)
                       | Inr summary \<Rightarrow> Inr summary)))
          else Inl e)"

text \<open>
  \<open>_do_one\<close>: the task of one paper. It returns the store and the pair
  \<open>(arxiv_id, summary)\<close>. In the \<open>except\<close> branch nothing is saved.
\<close>

definition set_links :: "paper \<Rightarrow> pydict \<Rightarrow> exn + pydict" where
  "set_links p summary =
     (case map_of summary ''links'' of
        None \<Rightarrow>
          Inr (AList.update ''links''
                 (PDict [(''abs'', PStr (abs_url p)), (''pdf'', PStr (pdf_url p))]) summary)
      | Some (PDict kvs) \<Rightarrow>
          Inr (AList.update ''links''
                 (PDict (AList.update ''pdf'' (PStr (pdf_url p))
                           (AList.update ''abs'' (PStr (abs_url p)) kvs))) summary)
      | Some v \<Rightarrow> Inl (TypeError ''links does not support item assignment''))"

definition do_one ::
  "(string \<Rightarrow> string) \<Rightarrow> (nat \<Rightarrow> string) \<Rightarrow> llm_replies \<Rightarrow> paper \<Rightarrow> db \<Rightarrow> db \<times> string \<times> pydict" where
  "do_one rs clk replies p d =
     (case summarize_one rs replies p of
        Inl e \<Rightarrow> (d, arxiv_id p, minimal_summary rs p)
      | Inr summary \<Rightarrow>
          (case set_links p summary of
             Inl e \<Rightarrow> (d, arxiv_id p, minimal_summary rs p)
           | Inr summary' \<Rightarrow>
               (save_summary clk (arxiv_id p) summary' d, arxiv_id p, summary')))"

text \<open>
  \<open>asyncio.gather\<close> over the tasks, taken in the order of the list; task \<open>i\<close> is
  answered by \<open>gateway i\<close>. Every task returns, so \<open>gather\<close> has no exception to report.
\<close>

fun gather :: "(string \<Rightarrow> string) \<Rightarrow> (nat \<Rightarrow> string) \<Rightarrow> (nat \<Rightarrow> llm_replies) \<Rightarrow> nat \<Rightarrow>
    paper list \<Rightarrow> db \<Rightarrow> db" where
  "gather rs clk gateway i [] d = d"
| "gather rs clk gateway i (p # ps) d =
     gather rs clk gateway (Suc i) ps (fst (do_one rs clk (gateway i) p d))"

definition collect :: "db \<Rightarrow> paper \<Rightarrow> paper \<times> pydict option" where
  "collect d p =
     (case get_summary d (arxiv_id p) of
        Some s \<Rightarrow> if s \<noteq> [] then (p, Some s) else (p, None)
      | None \<Rightarrow> (p, None))"

definition summarize_papers ::
  "(string \<Rightarrow> string) \<Rightarrow> (nat \<Rightarrow> string) \<Rightarrow> (nat \<Rightarrow> llm_replies) \<Rightarrow> paper list \<Rightarrow> db \<Rightarrow>
    db \<times> (paper \<times> pydict option) list" where
  "summarize_papers rs clk gateway ps d =
     (let to_summarize = filter (\<lambda>p. \<not> has_summary d (arxiv_id p)) ps;
          d' = gather rs clk gateway 0 to_summarize d
      in (d', map (collect d') ps))"

section \<open>Pushing the digest (\<open>push/__init__.py\<close>)\<close>

text \<open>
  The settings that the run controller and the push stage read. \<open>push_channels\<close> is the
  value of the property (the pieces of \<open>PUSH_CHANNELS\<close>, stripped, empty ones dropped).
  \<open>qq_configured\<close> is read by \<open>push_digest\<close> and is not declared in \<open>config.py\<close>: it is
  a field here.
\<close>

record config =
  push_channels :: "string list"
  email_configured :: bool
  qq_configured :: bool

text \<open>
  Everything outside the program that one invocation meets: the clock, the fetcher's
  result, the gateway's replies, the renderer's result, the writing of the two digest
  files, and the two channel adapters (\<open>None\<close>: the adapter returned; \<open>Some e\<close>: it
  raised \<open>e\<close>; the argument is the position of the channel in the loop).
  \<open>str_norm\<close> is \<open>channel.strip().lower()\<close> and \<open>repr_str\<close> the \<open>repr\<close> of a string.
\<close>

record env =
  cfg :: config
  clock :: "nat \<Rightarrow> string"
  repr_str :: "string \<Rightarrow> string"
  str_norm :: "string \<Rightarrow> string"
  fetch_papers :: "exn + paper list"
  gateway :: "nat \<Rightarrow> llm_replies"
  render :: "(paper \<times> pydict option) list \<Rightarrow> string \<Rightarrow> exn + string \<times> string"
  save_digest :: "string \<Rightarrow> string \<Rightarrow> string \<Rightarrow> exn option"
  send_email :: "nat \<Rightarrow> exn option"
  send_qq :: "nat \<Rightarrow> exn option"

text \<open>One round of \<open>for channel in channels\<close>; \<open>results\<close> is the dict being filled.\<close>

definition push_one :: "env \<Rightarrow> nat \<Rightarrow> string \<Rightarrow> (string \<times> bool) list \<Rightarrow> (string \<times> bool) list" where
  "push_one e i c results =
     (let channel = str_norm e c
      in if channel = ''email'' then
           (if \<not> email_configured (cfg e) then AList.update ''email'' False results
            else (case send_email e i of
                    None \<Rightarrow> AList.update ''email'' True results
                  | Some x \<Rightarrow> AList.update channel False results))
         else if channel = ''qq'' then
           (if \<not> qq_configured (cfg e) then AList.update ''qq'' False results
            else (case send_qq e i of
                    None \<Rightarrow> AList.update ''qq'' True results
                  | Some x \<Rightarrow> AList.update channel False results))
         else AList.update channel False results)"

fun push_loop :: "env \<Rightarrow> nat \<Rightarrow> string list \<Rightarrow> (string \<times> bool) list \<Rightarrow> (string \<times> bool) list" where
  "push_loop e i [] results = results"
| "push_loop e i (c # cs) results = push_loop e (Suc i) cs (push_one e i c results)"

definition push_digest :: "env \<Rightarrow> (string \<times> bool) list" where
  "push_digest e =
     (if push_channels (cfg e) = [] then [] else push_loop e 0 (push_channels (cfg e)) [])"

section \<open>The run controller (\<open>cli.py\<close>, \<open>cmd_run\<close>)\<close>

text \<open>
  The calls that leave the program are recorded as events, in order. \<open>cmd_run\<close> returns
  the exception it raised, if any, the store and the events.
\<close>

datatype event = EvFetch | EvSummarize | EvRender | EvSaveDigest | EvPush

text \<open>The idempotency check at the head of the \<open>try\<close> block.\<close>

definition already_sent :: "run_row \<Rightarrow> string set" where
  "already_sent run =
     (if sent_channels run \<noteq> [] then set (py_split CHR '','' (sent_channels run)) else {})"

definition run_completed :: "config \<Rightarrow> run_row option \<Rightarrow> bool" where
  "run_completed c run =
     (case run of
        None \<Rightarrow> False
      | Some r \<Rightarrow>
          status r = ''sent'' \<and> set (push_channels c) \<noteq> {} \<and>
          set (push_channels c) \<subseteq> already_sent r)"

text \<open>Step 4: push, and record what this invocation sent.\<close>

definition sent_of :: "(string \<times> bool) list \<Rightarrow> string list" where
  "sent_of results = map fst (filter snd results)"

definition push_stage :: "env \<Rightarrow> string \<Rightarrow> db \<Rightarrow> db" where
  "push_stage e today d =
     (let results = push_digest e;
          sent = sent_of results
      in upsert_run (clock e) today (if sent \<noteq> [] then ''sent'' else ''rendered'')
           (py_join '','' sent) d)"

text \<open>The \<open>try\<close> block.\<close>

definition cmd_run_body :: "env \<Rightarrow> string \<Rightarrow> db \<Rightarrow> exn option \<times> db \<times> event list" where
  "cmd_run_body e today d =
     (if run_completed (cfg e) (get_run d today) then (None, d, [])
      else
        (case fetch_papers e of
           Inl x \<Rightarrow> (Some x, d, [EvFetch])
         | Inr ps \<Rightarrow>
             if ps = [] then (None, upsert_run (clock e) today ''empty'' [] d, [EvFetch])
             else
               (let d1 = snd (upsert_papers (clock e) ps d);
                    sm = summarize_papers (repr_str e) (clock e) (gateway e) ps d1;
                    d2 = fst sm
                in case render e (snd sm) today of
                     Inl x \<Rightarrow> (Some x, d2, [EvFetch, EvSummarize, EvRender])
                   | Inr doc \<Rightarrow>
                       (case save_digest e (fst doc) (snd doc) today of
                          Some x \<Rightarrow> (Some x, d2, [EvFetch, EvSummarize, EvRender, EvSaveDigest])
                        | None \<Rightarrow>
                            (None, push_stage e today d2,
                             [EvFetch, EvSummarize, EvRender, EvSaveDigest, EvPush])))))"

text \<open>The \<open>except Exception\<close> handler around it: record \<open>failed\<close>, raise again.\<close>

definition cmd_run :: "env \<Rightarrow> string \<Rightarrow> db \<Rightarrow> exn option \<times> db \<times> event list" where
  "cmd_run e today d =
     (case cmd_run_body e today d of
        (Some x, d', evs) \<Rightarrow> (Some x, upsert_run (clock e) today ''failed'' [] d', evs)
      | (None, d', evs) \<Rightarrow> (None, d', evs))"

section \<open>Auxiliary definitions and sample inputs\<close>

text \<open>The rows of the \<open>papers\<close> table that carry a given identifier.\<close>

definition rows_for :: "string \<Rightarrow> db \<Rightarrow> paper_row list" where
  "rows_for i d = filter (\<lambda>r. arxiv_id r = i) (papers d)"

text \<open>The string that \<open>mark_sent\<close> writes over a recorded string \<open>old\<close>.\<close>

definition merged :: "string \<Rightarrow> string \<Rightarrow> string" where
  "merged old channel =
     py_join '','' (sort (remdups (filter (\<lambda>c. c \<noteq> []) (py_split CHR '','' old) @ [channel])))"

text \<open>The inputs at which the theorems below are instantiated.\<close>

definition sample_paper :: paper where
  "sample_paper =
     \<lparr>arxiv_id = ''2401.00001'', title = ''Test Paper on Large Language Models'',
      authors = ''Alice, Bob'', category = ''cs.CL'',
      published_at = ''2024-01-15T00:00:00Z'', updated_at = ''2024-01-15T00:00:00Z'',
      abs_url = ''https://arxiv.org/abs/2401.00001'',
      pdf_url = ''https://arxiv.org/pdf/2401.00001'',
      abstract = ''We present a novel approach.''\<rparr>"

definition empty_db :: db where
  "empty_db = \<lparr>papers = [], summaries = Map.empty, runs = Map.empty, tick = 0\<rparr>"

definition fixed_clock :: "nat \<Rightarrow> string" where
  "fixed_clock n = ''2024-01-15T08:30:00+00:00''"

definition sent_run_db :: db where
  "sent_run_db =
     empty_db\<lparr>runs := [''2024-01-15'' \<mapsto>
        \<lparr>status = ''sent'', sent_channels = ''telegram'', created_at = ''2024-01-15T08:30:00''\<rparr>]\<rparr>"

definition empty_run_db :: db where
  "empty_run_db =
     empty_db\<lparr>runs := [''2024-01-15'' \<mapsto>
        \<lparr>status = ''empty'', sent_channels = [], created_at = ''2024-01-15T08:30:00''\<rparr>]\<rparr>"

text \<open>
  Words for the statements about \<open>_validate_summary\<close>: a key is lacking when it is
  absent or its value is falsy; \<open>isinstance(v, list)\<close>; \<open>isinstance(v, dict)\<close>; the
  value of a key after the loop over the defaults.
\<close>

definition lacks :: "pydict \<Rightarrow> string \<Rightarrow> bool" where
  "lacks data k = (case map_of data k of None \<Rightarrow> True | Some v \<Rightarrow> \<not> truthy v)"

definition is_list :: "pyval \<Rightarrow> bool" where
  "is_list v = (case v of PList xs \<Rightarrow> True | _ \<Rightarrow> False)"

definition is_dict :: "pyval \<Rightarrow> bool" where
  "is_dict v = (case v of PDict kvs \<Rightarrow> True | _ \<Rightarrow> False)"

definition filled :: "pydict \<Rightarrow> string \<Rightarrow> pyval option" where
  "filled data k = map_of (foldl fill_default data defaults) k"

definition sample_data :: pydict where
  "sample_data =
     [(''title_zh'', PStr ''t''),
      (''contributions_zh'', PStr ''single string instead of list''),
      (''links'', PStr ''not a dict'')]"

text \<open>
  Words for the statements about the run record: the place of a status on the way
  \<open>pending\<close>, then \<open>empty\<close> or \<open>rendered\<close>, then \<open>sent\<close> (a record that is absent or
  \<open>failed\<close> is at the start); the non-empty channel names a record holds; a step that
  does not go back, or goes to \<open>failed\<close>.
\<close>

definition rank :: "string \<Rightarrow> nat" where
  "rank st = (if st = ''sent'' then 2 else if st = ''empty'' \<or> st = ''rendered'' then 1 else 0)"

definition level :: "run_row option \<Rightarrow> nat" where
  "level run = (case run of None \<Rightarrow> 0 | Some r \<Rightarrow> rank (status r))"

definition recorded :: "run_row option \<Rightarrow> string list" where
  "recorded run =
     (case run of
        None \<Rightarrow> []
      | Some r \<Rightarrow> filter (\<lambda>c. c \<noteq> []) (py_split CHR '','' (sent_channels r)))"

definition monotone_step :: "run_row option \<Rightarrow> run_row option \<Rightarrow> bool" where
  "monotone_step old new =
     (map_option status new = Some ''failed'' \<or>
      (level old \<le> level new \<and> set (recorded old) \<subseteq> set (recorded new)))"

text \<open>The store from which the push stage of \<open>cmd_run\<close> starts.\<close>

definition before_push :: "env \<Rightarrow> paper list \<Rightarrow> db \<Rightarrow> db" where
  "before_push e ps d =
     fst (summarize_papers (repr_str e) (clock e) (gateway e) ps
            (snd (upsert_papers (clock e) ps d)))"

text \<open>
  A day, a gateway that answers every call with a transport error, and the store after
  the paper has been fetched.
\<close>

definition day :: string where
  "day = ''2024-01-15''"

definition down_gateway :: "nat \<Rightarrow> llm_replies" where
  "down_gateway i =
     \<lparr>first_json = Inl (OtherException ''HTTPStatusError: 503 Service Unavailable''),
      raw_chat = Inl (OtherException ''HTTPStatusError: 503 Service Unavailable''),
      repair_json = (\<lambda>raw. Inl (OtherException ''HTTPStatusError: 503 Service Unavailable''))\<rparr>"

definition stored_db :: db where
  "stored_db =
     \<lparr>papers = [paper.extend sample_paper \<lparr>fetched_at = ''2024-01-15T08:30:00+00:00''\<rparr>],
      summaries = Map.empty, runs = Map.empty, tick = 1\<rparr>"

text \<open>
  An environment with two channels configured, of which the mail adapter raises and the
  QQ channel lacks its settings; the same with the QQ channel working; with no channel
  configured; with the fetcher raising.
\<close>

definition ok_summary :: pydict where
  "ok_summary =
     [(''title_zh'', PStr ''t''), (''tldr_zh'', PStr ''s''),
      (''contributions_zh'', PList [PStr ''c'']), (''method_zh'', PStr ''m''),
      (''experiments_zh'', PStr ''e''), (''results_zh'', PStr ''r''),
      (''limitations_zh'', PStr ''l''), (''who_should_read_zh'', PStr ''w''),
      (''links'', PDict [(''abs'', PStr ''https://arxiv.org/abs/2401.00001''),
                         (''pdf'', PStr ''https://arxiv.org/pdf/2401.00001'')])]"

definition base_env :: env where
  "base_env =
     \<lparr>cfg = \<lparr>push_channels = [''email'', ''qq''], email_configured = True,
             qq_configured = False\<rparr>,
      clock = fixed_clock,
      repr_str = (\<lambda>s. s),
      str_norm = (\<lambda>s. s),
      fetch_papers = Inr [sample_paper],
      gateway = down_gateway,
      render = (\<lambda>ps d. Inr (''# arXiv Daily Digest'', ''arXiv Daily Digest'')),
      save_digest = (\<lambda>md txt d. None),
      send_email = (\<lambda>i. Some (OtherException ''SMTPServerDisconnected'')),
      send_qq = (\<lambda>i. None)\<rparr>"

definition qq_env :: env where
  "qq_env =
     base_env\<lparr>cfg := \<lparr>push_channels = [''email'', ''qq''], email_configured = True,
                      qq_configured = True\<rparr>\<rparr>"

definition no_channel_env :: env where
  "no_channel_env =
     base_env\<lparr>cfg := \<lparr>push_channels = [], email_configured = False, qq_configured = False\<rparr>\<rparr>"

definition fetch_down_env :: env where
  "fetch_down_env = base_env\<lparr>fetch_papers := Inl (OtherException ''ConnectError'')\<rparr>"

text \<open>
  The store after a first run of the day that reached the mail channel only, and after
  one that reached both channels.
\<close>

definition partial_db :: db where
  "partial_db =
     \<lparr>papers = [paper.extend sample_paper \<lparr>fetched_at = ''2024-01-15T08:30:00+00:00''\<rparr>],
      summaries = [''2401.00001'' \<mapsto> ok_summary],
      runs = [day \<mapsto> \<lparr>status = ''sent'', sent_channels = ''email'',
                       created_at = ''2024-01-15T08:31:00+00:00''\<rparr>],
      tick = 3\<rparr>"

definition done_db :: db where
  "done_db =
     partial_db\<lparr>runs := [day \<mapsto> \<lparr>status = ''sent'', sent_channels = ''email,qq'',
                       created_at = ''2024-01-15T08:31:00+00:00''\<rparr>]\<rparr>"

section \<open>Splitting and joining\<close>

lemma py_split_not_Nil: "py_split sep s \<noteq> []"
  by (induction s) auto

lemma py_split_no_sep: "sep \<notin> set s \<Longrightarrow> py_split sep s = [s]"
  by (induction s) auto

lemma py_split_pieces: "w \<in> set (py_split sep s) \<Longrightarrow> sep \<notin> set w"
proof (induction s arbitrary: w)
  case Nil then show ?case by simp
next
  case (Cons c cs)
  then show ?case
    using py_split_not_Nil[of sep cs]
    by (cases "py_split sep cs") (auto split: if_splits)
qed

lemma py_split_app: "sep \<notin> set x \<Longrightarrow> py_split sep (x @ sep # r) = x # py_split sep r"
  by (induction x) auto

lemma py_split_join:
  "xs \<noteq> [] \<Longrightarrow> \<forall>x\<in>set xs. sep \<notin> set x \<Longrightarrow> py_split sep (py_join [sep] xs) = xs"
  by (induction "[sep]" xs rule: py_join.induct) (auto simp: py_split_no_sep py_split_app)

lemma py_split_append:
  "py_split sep (x @ sep # r) = py_split sep x @ py_split sep r"
proof (induction x)
  case Nil
  show ?case by simp
next
  case (Cons c cs)
  then show ?case
    using py_split_not_Nil[of sep cs] by (cases "py_split sep cs") auto
qed

lemma py_split_join_concat:
  "xs \<noteq> [] \<Longrightarrow> py_split sep (py_join [sep] xs) = concat (map (py_split sep) xs)"
  by (induction "[sep]" xs rule: py_join.induct) (simp_all add: py_split_append)

section \<open>Papers: insert or ignore\<close>

lemma rows_for_fresh: "i \<notin> set (paper_ids d) \<Longrightarrow> rows_for i d = []"
  by (auto simp: rows_for_def paper_ids_def filter_empty_conv)

lemma rows_for_distinct:
  "distinct (paper_ids d) \<Longrightarrow> i \<in> set (paper_ids d) \<Longrightarrow> length (rows_for i d) = 1"
proof -
  have "distinct (map arxiv_id rows) \<Longrightarrow> i \<in> set (map arxiv_id rows) \<Longrightarrow>
        length (filter (\<lambda>r. arxiv_id r = i) rows) = 1" for rows :: "paper_row list"
  proof (induction rows)
    case Nil
    then show ?case by simp
  next
    case (Cons r rows)
    show ?case
    proof (cases "arxiv_id r = i")
      case True
      then have "i \<notin> set (map arxiv_id rows)"
        using Cons.prems(1) by auto
      then have "filter (\<lambda>r. arxiv_id r = i) rows = []"
        by (auto simp: filter_empty_conv)
      then show ?thesis using True by simp
    next
      case False
      then show ?thesis using Cons by auto
    qed
  qed
  then show "distinct (paper_ids d) \<Longrightarrow> i \<in> set (paper_ids d) \<Longrightarrow> length (rows_for i d) = 1"
    by (simp add: rows_for_def paper_ids_def)
qed

lemma paper_ids_upsert_paper:
  "paper_ids (snd (upsert_paper clk p d)) =
     (if arxiv_id p \<in> set (paper_ids d) then paper_ids d else paper_ids d @ [arxiv_id p])"
  by (simp add: upsert_paper_def Let_def paper_ids_def paper.extend_def)

lemma papers_upsert_paper:
  "papers (snd (upsert_paper clk p d)) =
     (if arxiv_id p \<in> set (paper_ids d) then papers d
      else papers d @ [paper.extend p \<lparr>fetched_at = clk (tick d)\<rparr>])"
  by (simp add: upsert_paper_def Let_def)

lemma fst_upsert_paper:
  "fst (upsert_paper clk p d) = (arxiv_id p \<notin> set (paper_ids d))"
  by (simp add: upsert_paper_def Let_def)

text \<open>
  Claim C2. \<open>upsert_paper\<close> returns \<open>True\<close> exactly when the store does not hold the
  paper's identifier yet; called twice for a paper \<open>p\<close>, the second call returns
  \<open>False\<close>. Afterwards the table has exactly one row with that identifier: the row the
  first call wrote when the identifier was new, and otherwise the one row that a table
  with distinct identifiers already had. Inserting any paper with that identifier again
  returns \<open>False\<close> and leaves the table as it was.
\<close>

theorem upsert_paper_twice:
  "fst (upsert_paper clk p d) = (arxiv_id p \<notin> set (paper_ids d)) \<and>
   fst (upsert_paper clk p (snd (upsert_paper clk p d))) = False \<and>
   (arxiv_id p \<notin> set (paper_ids d) \<longrightarrow>
      rows_for (arxiv_id p) (snd (upsert_paper clk p (snd (upsert_paper clk p d))))
        = [paper.extend p \<lparr>fetched_at = clk (tick d)\<rparr>]) \<and>
   (distinct (paper_ids d) \<longrightarrow>
      length (rows_for (arxiv_id p)
                (snd (upsert_paper clk p (snd (upsert_paper clk p d))))) = 1) \<and>
   (\<forall>q. arxiv_id q = arxiv_id p \<longrightarrow>
      fst (upsert_paper clk q (snd (upsert_paper clk p d))) = False \<and>
      papers (snd (upsert_paper clk q (snd (upsert_paper clk p d))))
        = papers (snd (upsert_paper clk p d)))"
proof -
  let ?d1 = "snd (upsert_paper clk p d)"
  let ?d2 = "snd (upsert_paper clk p ?d1)"
  have in1: "arxiv_id p \<in> set (paper_ids ?d1)"
    by (simp add: paper_ids_upsert_paper)
  have dup: "\<And>q. arxiv_id q = arxiv_id p \<Longrightarrow>
      fst (upsert_paper clk q ?d1) = False \<and> papers (snd (upsert_paper clk q ?d1)) = papers ?d1"
    using in1 by (simp add: fst_upsert_paper papers_upsert_paper)
  have ids2: "paper_ids ?d2 = paper_ids ?d1"
    using in1 by (simp add: paper_ids_upsert_paper)
  have rows2: "rows_for (arxiv_id p) ?d2 = rows_for (arxiv_id p) ?d1"
    using dup[of p] by (simp add: rows_for_def)
  have fresh: "arxiv_id p \<notin> set (paper_ids d) \<Longrightarrow>
      rows_for (arxiv_id p) ?d2 = [paper.extend p \<lparr>fetched_at = clk (tick d)\<rparr>]"
    using rows_for_fresh[of "arxiv_id p" d]
    by (simp add: rows2) (simp add: rows_for_def papers_upsert_paper paper.extend_def)
  have one: "distinct (paper_ids d) \<Longrightarrow> length (rows_for (arxiv_id p) ?d2) = 1"
  proof -
    assume "distinct (paper_ids d)"
    then have "distinct (paper_ids ?d2)"
      by (simp add: ids2 paper_ids_upsert_paper)
    moreover have "arxiv_id p \<in> set (paper_ids ?d2)"
      using in1 by (simp add: ids2)
    ultimately show ?thesis by (rule rows_for_distinct)
  qed
  show ?thesis
    using dup fresh one by (simp add: fst_upsert_paper)
qed

theorem upsert_paper_twice_witness:
  "arxiv_id sample_paper \<notin> set (paper_ids empty_db) \<and> distinct (paper_ids empty_db) \<and>
   fst (upsert_paper fixed_clock sample_paper empty_db) = True \<and>
   fst (upsert_paper fixed_clock sample_paper
          (snd (upsert_paper fixed_clock sample_paper empty_db))) = False \<and>
   length (rows_for ''2401.00001''
          (snd (upsert_paper fixed_clock sample_paper
             (snd (upsert_paper fixed_clock sample_paper empty_db))))) = 1"
  using upsert_paper_twice [of fixed_clock sample_paper empty_db]
  by (simp add: sample_paper_def empty_db_def paper_ids_def)

section \<open>Runs: recording sent channels\<close>

lemma get_run_upsert_run:
  "get_run (upsert_run clk r st ch d) r' =
     (if r' = r then
        Some (case get_run d r of
                None \<Rightarrow> \<lparr>status = st, sent_channels = ch, created_at = clk (tick d)\<rparr>
              | Some old \<Rightarrow> old\<lparr>status := st, sent_channels := ch\<rparr>)
      else get_run d r')"
  by (simp add: get_run_def upsert_run_def Let_def)

lemma status_upsert_run:
  "map_option status (get_run (upsert_run clk r st ch d) r) = Some st"
  by (simp add: get_run_upsert_run split: option.splits)

lemma was_sent_upsert_run:
  "was_sent (upsert_run clk r st ch d) r c \<longleftrightarrow> c \<in> set (py_split CHR '','' ch)"
  by (simp add: was_sent_def get_run_upsert_run split: option.splits)

lemma mark_sent_eq:
  "mark_sent clk r channel d =
     upsert_run clk r ''sent''
       (case get_run d r of None \<Rightarrow> channel | Some run \<Rightarrow> merged (sent_channels run) channel) d"
  by (simp add: mark_sent_def merged_def Let_def split: option.splits)

lemma split_merged:
  assumes "CHR '','' \<notin> set channel"
  shows "set (py_split CHR '','' (merged old channel)) =
           {c \<in> set (py_split CHR '','' old). c \<noteq> []} \<union> {channel}"
proof -
  let ?xs = "sort (remdups (filter (\<lambda>c. c \<noteq> []) (py_split CHR '','' old) @ [channel]))"
  have ne: "?xs \<noteq> []"
  proof -
    have "channel \<in> set ?xs" by simp
    then show ?thesis by (metis empty_iff empty_set)
  qed
  have cf: "\<forall>x\<in>set ?xs. CHR '','' \<notin> set x"
    using assms by (auto dest: py_split_pieces)
  have "py_split CHR '','' (py_join [CHR '',''] ?xs) = ?xs"
    using ne cf by (rule py_split_join)
  then show ?thesis
    by (auto simp: merged_def)
qed

lemma not_was_sent_absent: "get_run d r = None \<Longrightarrow> \<not> was_sent d r c"
  by (simp add: was_sent_def)

lemma was_sent_present:
  "get_run d r = Some run \<Longrightarrow> was_sent d r c \<longleftrightarrow> c \<in> set (py_split CHR '','' (sent_channels run))"
  by (simp add: was_sent_def)

lemma was_sent_mark_sent:
  assumes "CHR '','' \<notin> set channel"
  shows "was_sent (mark_sent clk r channel d) r c \<longleftrightarrow> c = channel \<or> (c \<noteq> [] \<and> was_sent d r c)"
proof (cases "get_run d r")
  case None
  then show ?thesis
    using assms by (auto simp: mark_sent_eq was_sent_upsert_run py_split_no_sep not_was_sent_absent)
next
  case (Some run)
  then show ?thesis
    using split_merged[OF assms, of "sent_channels run"]
    by (auto simp: mark_sent_eq was_sent_upsert_run was_sent_present)
qed

text \<open>
  Claim C9. After \<open>mark_sent(r, "email")\<close> and then \<open>mark_sent(r, "qq")\<close>, from any
  store, \<open>was_sent(r, "email")\<close> and \<open>was_sent(r, "qq")\<close> are both true and the status
  of the run is \<open>sent\<close>; every non-empty channel that was recorded before is still
  recorded: \<open>mark_sent\<close> adds to the recorded set.
\<close>

theorem mark_sent_additive:
  "was_sent (mark_sent clk r ''qq'' (mark_sent clk r ''email'' d)) r ''email'' \<and>
   was_sent (mark_sent clk r ''qq'' (mark_sent clk r ''email'' d)) r ''qq'' \<and>
   map_option status (get_run (mark_sent clk r ''qq'' (mark_sent clk r ''email'' d)) r)
     = Some ''sent'' \<and>
   (\<forall>c. c \<noteq> [] \<and> was_sent d r c \<longrightarrow>
      was_sent (mark_sent clk r ''qq'' (mark_sent clk r ''email'' d)) r c)"
proof -
  have e: "CHR '','' \<notin> set ''email''" and q: "CHR '','' \<notin> set ''qq''"
    by simp_all
  have st: "map_option status (get_run (mark_sent clk r ''qq'' (mark_sent clk r ''email'' d)) r)
      = Some ''sent''"
    unfolding mark_sent_eq[of clk r "''qq''"] by (rule status_upsert_run)
  have ws: "\<And>c. was_sent (mark_sent clk r ''qq'' (mark_sent clk r ''email'' d)) r c \<longleftrightarrow>
      c = ''qq'' \<or> c \<noteq> [] \<and> (c = ''email'' \<or> c \<noteq> [] \<and> was_sent d r c)"
    by (simp only: was_sent_mark_sent[OF q] was_sent_mark_sent[OF e])
  show ?thesis
    using st by (simp add: ws)
qed

theorem mark_sent_additive_witness:
  "was_sent sent_run_db ''2024-01-15'' ''telegram'' \<and>
   was_sent (mark_sent fixed_clock ''2024-01-15'' ''qq''
              (mark_sent fixed_clock ''2024-01-15'' ''email'' sent_run_db))
     ''2024-01-15'' ''telegram''"
  using mark_sent_additive [of fixed_clock "''2024-01-15''" sent_run_db]
  by (simp add: sent_run_db_def empty_db_def was_sent_def get_run_def)

text \<open>
  Claim C10. For a run that is in the store with the empty sent-channel string,
  \<open>was_sent(r, "")\<close> is true, because \<open>"".split(",")\<close> is \<open>[""]\<close>. That is the state
  \<open>upsert_run\<close> leaves when the controller records \<open>empty\<close> or \<open>failed\<close>.
\<close>

theorem was_sent_empty_channel:
  "(\<forall>run. get_run d r = Some run \<and> sent_channels run = [] \<longrightarrow> was_sent d r []) \<and>
   was_sent (upsert_run clk r ''empty'' [] d) r [] \<and>
   was_sent (upsert_run clk r ''failed'' [] d) r []"
  by (auto simp: was_sent_def get_run_upsert_run split: option.splits)

theorem was_sent_empty_channel_witness:
  "map_option sent_channels (get_run empty_run_db ''2024-01-15'') = Some [] \<and>
   was_sent empty_run_db ''2024-01-15'' []"
  using was_sent_empty_channel [of empty_run_db "''2024-01-15''" fixed_clock]
  by (simp add: empty_run_db_def empty_db_def get_run_def)

section \<open>Validation\<close>

lemma map_of_fill_default:
  "map_of (fill_default data kd) k =
     (if k = fst kd \<and> (case map_of data k of None \<Rightarrow> True | Some v \<Rightarrow> \<not> truthy v)
      then Some (snd kd) else map_of data k)"
  by (auto simp: fill_default_def update_conv' split: option.splits)

lemma map_of_fill_defaults:
  "distinct (map fst ds) \<Longrightarrow>
   map_of (foldl fill_default data ds) k =
     (case map_of ds k of
        None \<Rightarrow> map_of data k
      | Some dflt \<Rightarrow>
          (case map_of data k of
             None \<Rightarrow> Some dflt
           | Some v \<Rightarrow> if truthy v then Some v else Some dflt))"
proof (induction ds arbitrary: data k)
  case Nil
  then show ?case by simp
next
  case (Cons kd ds)
  have notin: "map_of ds (fst kd) = None"
    using Cons.prems by (simp add: map_of_eq_None_iff)
  have d: "distinct (map fst ds)"
    using Cons.prems by simp
  show ?case
  proof (cases "k = fst kd")
    case True
    then show ?thesis
      using notin by (simp add: Cons.IH[OF d] map_of_fill_default split: option.splits)
  next
    case False
    then show ?thesis
      by (simp add: Cons.IH[OF d] map_of_fill_default cong: option.case_cong)
  qed
qed

lemma distinct_defaults: "distinct (map fst defaults)"
  by (simp add: defaults_def)


lemma map_of_wrap_contributions:
  "map_of (wrap_contributions rs data) k =
     (if k = ''contributions_zh'' then
        (case map_of data k of
           Some (PList xs) \<Rightarrow> Some (PList xs)
         | Some v \<Rightarrow> Some (PList [PStr (py_str rs v)])
         | None \<Rightarrow> Some (PList [PStr ''unknown'']))
      else map_of data k)"
  by (simp add: wrap_contributions_def update_conv' py_str_def split: option.splits pyval.splits)

lemma map_of_replace_links:
  "map_of (replace_links data) k =
     (if k = ''links'' then
        (case map_of data k of Some (PDict kvs) \<Rightarrow> Some (PDict kvs) | _ \<Rightarrow> Some default_links)
      else map_of data k)"
  by (simp add: replace_links_def update_conv' split: option.splits pyval.splits)

lemma truthy_default: "map_of defaults k = Some dflt \<Longrightarrow> truthy dflt"
  by (auto simp: defaults_def default_links_def split: if_splits)

lemma filled_lacks:
  "map_of defaults k = Some dflt \<Longrightarrow> lacks data k \<Longrightarrow> filled data k = Some dflt"
  by (simp add: filled_def lacks_def map_of_fill_defaults[OF distinct_defaults]
      split: option.splits)

lemma filled_has:
  "map_of defaults k = Some dflt \<Longrightarrow> map_of data k = Some v \<Longrightarrow> truthy v \<Longrightarrow>
     filled data k = Some v"
  by (simp add: filled_def map_of_fill_defaults[OF distinct_defaults])

lemma filled_truthy:
  assumes "map_of defaults k = Some dflt"
  shows "\<exists>v. filled data k = Some v \<and> truthy v"
proof (cases "lacks data k")
  case True
  then show ?thesis
    using filled_lacks[OF assms] truthy_default[OF assms] by simp
next
  case False
  then obtain v where "map_of data k = Some v" "truthy v"
    by (auto simp: lacks_def split: option.splits)
  then show ?thesis
    using filled_has[OF assms] by simp
qed

lemma map_of_validate_summary:
  "map_of (validate_summary rs data) k =
     (if k = ''links'' then
        (case filled data k of Some (PDict kvs) \<Rightarrow> Some (PDict kvs) | _ \<Rightarrow> Some default_links)
      else if k = ''contributions_zh'' then
        (case filled data k of
           Some (PList xs) \<Rightarrow> Some (PList xs)
         | Some v \<Rightarrow> Some (PList [PStr (py_str rs v)])
         | None \<Rightarrow> Some (PList [PStr ''unknown'']))
      else filled data k)"
  by (simp add: validate_summary_def map_of_replace_links map_of_wrap_contributions filled_def)

lemma validated_truthy:
  assumes "map_of defaults k = Some dflt"
  shows "\<exists>v. map_of (validate_summary rs data) k = Some v \<and> truthy v"
proof -
  obtain v where v: "filled data k = Some v" "truthy v"
    using filled_truthy[OF assms] by blast
  consider (links) "k = ''links''" | (contrib) "k = ''contributions_zh''"
    | (other) "k \<noteq> ''links''" "k \<noteq> ''contributions_zh''"
    by blast
  then show ?thesis
  proof cases
    case links
    then have "filled data ''links'' = Some v"
      using v(1) by simp
    then show ?thesis
      using v(2) links by (cases v) (simp_all add: map_of_validate_summary default_links_def)
  next
    case contrib
    then have "filled data ''contributions_zh'' = Some v"
      using v(1) by simp
    then show ?thesis
      using v(2) contrib by (cases v) (simp_all add: map_of_validate_summary)
  next
    case other
    then show ?thesis
      using v by (simp add: map_of_validate_summary)
  qed
qed

lemma validated_default:
  assumes "map_of defaults k = Some dflt" and "lacks data k"
  shows "map_of (validate_summary rs data) k = Some dflt"
proof -
  have f: "filled data k = Some dflt"
    using assms by (rule filled_lacks)
  have c: "k = ''contributions_zh'' \<Longrightarrow> dflt = PList [PStr ''unknown'']"
    using assms(1) by (simp add: defaults_def)
  have l: "k = ''links'' \<Longrightarrow> dflt = default_links"
    using assms(1) by (simp add: defaults_def)
  consider (links) "k = ''links''" | (contrib) "k = ''contributions_zh''"
    | (other) "k \<noteq> ''links''" "k \<noteq> ''contributions_zh''"
    by blast
  then show ?thesis
  proof cases
    case links
    then have "filled data ''links'' = Some default_links" "dflt = default_links"
      using f l by simp_all
    then show ?thesis
      using links by (simp add: map_of_validate_summary default_links_def)
  next
    case contrib
    then have "filled data ''contributions_zh'' = Some (PList [PStr ''unknown''])"
      "dflt = PList [PStr ''unknown'']"
      using f c by simp_all
    then show ?thesis
      using contrib by (simp add: map_of_validate_summary)
  next
    case other
    then show ?thesis
      using f by (simp add: map_of_validate_summary)
  qed
qed

lemma validated_contributions:
  assumes "map_of data ''contributions_zh'' = Some v" "truthy v" "\<not> is_list v"
  shows "map_of (validate_summary rs data) ''contributions_zh'' = Some (PList [PStr (py_str rs v)])"
proof -
  have "filled data ''contributions_zh'' = Some v"
    using assms(1,2) by (intro filled_has[where dflt = "PList [PStr ''unknown'']"])
      (simp_all add: defaults_def)
  then show ?thesis
    using assms(3) by (cases v) (simp_all add: map_of_validate_summary is_list_def)
qed

lemma validated_links:
  assumes "map_of data ''links'' = Some v" "\<not> is_dict v"
  shows "map_of (validate_summary rs data) ''links'' = Some default_links"
proof (cases "truthy v")
  case True
  have "filled data ''links'' = Some v"
    using assms(1) True by (intro filled_has[where dflt = default_links])
      (simp_all add: defaults_def)
  then show ?thesis
    using assms(2) by (cases v) (simp_all add: map_of_validate_summary is_dict_def)
next
  case False
  have "filled data ''links'' = Some default_links"
    using assms(1) False by (intro filled_lacks) (simp_all add: defaults_def lacks_def)
  then show ?thesis
    by (simp add: map_of_validate_summary default_links_def)
qed

text \<open>
  Claim C4. For every input dict, after \<open>_validate_summary\<close> every required field is
  present and truthy; a field that was absent or falsy holds its default; a
  \<open>contributions_zh\<close> value that was truthy and not a list is the one-element list of its
  \<open>str\<close>; a \<open>links\<close> value that was not a dict is the default pair.
\<close>

theorem validate_summary_shape:
  "(\<forall>kd \<in> set defaults.
      (\<exists>v. map_of (validate_summary rs data) (fst kd) = Some v \<and> truthy v) \<and>
      (lacks data (fst kd) \<longrightarrow> map_of (validate_summary rs data) (fst kd) = Some (snd kd))) \<and>
   (\<forall>v. map_of data ''contributions_zh'' = Some v \<and> truthy v \<and> \<not> is_list v \<longrightarrow>
      map_of (validate_summary rs data) ''contributions_zh''
        = Some (PList [PStr (py_str rs v)])) \<and>
   (\<forall>v. map_of data ''links'' = Some v \<and> \<not> is_dict v \<longrightarrow>
      map_of (validate_summary rs data) ''links'' = Some default_links)"
proof -
  have d: "\<And>kd. kd \<in> set defaults \<Longrightarrow> map_of defaults (fst kd) = Some (snd kd)"
    using distinct_defaults by (simp add: map_of_eq_Some_iff)
  show ?thesis
    using validated_truthy[OF d] validated_default[OF d]
      validated_contributions validated_links
    by blast
qed

theorem validate_summary_shape_witness:
  "lacks sample_data ''tldr_zh'' \<and>
   map_of (validate_summary (\<lambda>s. s) sample_data) ''tldr_zh'' = Some (PStr ''unknown'') \<and>
   map_of sample_data ''contributions_zh'' = Some (PStr ''single string instead of list'') \<and>
   truthy (PStr ''single string instead of list'') \<and>
   \<not> is_list (PStr ''single string instead of list'') \<and>
   map_of (validate_summary (\<lambda>s. s) sample_data) ''contributions_zh''
     = Some (PList [PStr ''single string instead of list'']) \<and>
   map_of sample_data ''links'' = Some (PStr ''not a dict'') \<and>
   \<not> is_dict (PStr ''not a dict'') \<and>
   map_of (validate_summary (\<lambda>s. s) sample_data) ''links'' = Some default_links"
  using validate_summary_shape [of "\<lambda>s. s" sample_data]
  by (simp add: sample_data_def lacks_def is_list_def is_dict_def defaults_def py_str_def)

section \<open>Summaries: what is persisted\<close>

text \<open>
  Claim C1, at an input where it fails. The first model call of the only task raises a
  transport error. \<open>summarize_one\<close> catches \<open>ValueError\<close> only there, so the error
  reaches the \<open>except\<close> branch of \<open>_do_one\<close>, which builds the minimal summary and does
  not save it: the store holds no summary for the paper, and the returned list pairs the
  paper with \<open>None\<close>.
\<close>

theorem summarize_papers_unsaved:
  "summarize_papers (\<lambda>s. s) fixed_clock down_gateway [sample_paper] stored_db
     = (stored_db, [(sample_paper, None)]) \<and>
   \<not> has_summary
       (fst (summarize_papers (\<lambda>s. s) fixed_clock down_gateway [sample_paper] stored_db))
       (arxiv_id sample_paper)"
  by (simp add: summarize_papers_def has_summary_def stored_db_def do_one_def
      summarize_one_def down_gateway_def collect_def get_summary_def Let_def)

section \<open>The run controller\<close>

lemma runs_upsert_paper: "runs (snd (upsert_paper clk p d)) = runs d"
  by (simp add: upsert_paper_def Let_def)

lemma runs_upsert_papers: "runs (snd (upsert_papers clk ps d)) = runs d"
  by (induction ps arbitrary: d) (simp_all add: runs_upsert_paper split: prod.splits,
      metis runs_upsert_paper snd_conv)

lemma runs_do_one: "runs (fst (do_one rs clk replies p d)) = runs d"
  by (simp add: do_one_def save_summary_def split: sum.splits)

lemma runs_gather: "runs (gather rs clk gw i ps d) = runs d"
  by (induction ps arbitrary: i d) (simp_all add: runs_do_one)

lemma runs_summarize_papers: "runs (fst (summarize_papers rs clk gw ps d)) = runs d"
  by (simp add: summarize_papers_def Let_def runs_gather)

lemma get_run_frame:
  "get_run (fst (summarize_papers rs clk gw ps (snd (upsert_papers clk' ps' d)))) r = get_run d r"
  by (simp add: get_run_def runs_summarize_papers runs_upsert_papers)

lemma get_run_before_push: "get_run (before_push e ps d) r = get_run d r"
  by (simp add: before_push_def get_run_frame)

lemma cmd_run_skip:
  "run_completed (cfg e) (get_run d today) \<Longrightarrow> cmd_run e today d = (None, d, [])"
  by (simp add: cmd_run_def cmd_run_body_def)

lemma done_run:
  "get_run done_db day =
     Some \<lparr>status = ''sent'', sent_channels = ''email,qq'',
           created_at = ''2024-01-15T08:31:00+00:00''\<rparr>"
  by (simp add: done_db_def get_run_def)

lemma cmd_run_events:
  "snd (snd (cmd_run e today d)) = snd (snd (cmd_run_body e today d))"
  by (simp add: cmd_run_def split: prod.splits option.splits)

lemma cmd_run_raises:
  "fst (cmd_run e today d) = fst (cmd_run_body e today d)"
  by (simp add: cmd_run_def split: prod.splits option.splits)

lemma cmd_run_failed_db:
  "fst (cmd_run_body e today d) = Some x \<Longrightarrow>
     fst (snd (cmd_run e today d))
       = upsert_run (clock e) today ''failed'' [] (fst (snd (cmd_run_body e today d)))"
  by (cases "cmd_run_body e today d") (simp add: cmd_run_def)

lemma cmd_run_ok_db:
  "fst (cmd_run_body e today d) = None \<Longrightarrow>
     fst (snd (cmd_run e today d)) = fst (snd (cmd_run_body e today d))"
  by (cases "cmd_run_body e today d") (simp add: cmd_run_def)

lemma body_reaches_push:
  assumes "EvPush \<in> set (snd (snd (cmd_run_body e today d)))"
  shows "\<exists>ps. fetch_papers e = Inr ps \<and>
           cmd_run_body e today d =
             (None, push_stage e today (before_push e ps d),
              [EvFetch, EvSummarize, EvRender, EvSaveDigest, EvPush])"
  using assms
  by (auto simp: cmd_run_body_def before_push_def Let_def
      split: if_splits sum.splits option.splits)

lemma succeeded_iff: "sent_of results \<noteq> [] \<longleftrightarrow> (\<exists>ch. (ch, True) \<in> set results)"
  by (induction results) (auto simp: sent_of_def)

lemma get_run_push_stage:
  "get_run (push_stage e today d) today =
     Some (case get_run d today of
             None \<Rightarrow> \<lparr>status = (if sent_of (push_digest e) \<noteq> [] then ''sent'' else ''rendered''),
                        sent_channels = py_join '','' (sent_of (push_digest e)),
                        created_at = clock e (tick d)\<rparr>
           | Some old \<Rightarrow>
               old\<lparr>status := (if sent_of (push_digest e) \<noteq> [] then ''sent'' else ''rendered''),
                   sent_channels := py_join '','' (sent_of (push_digest e))\<rparr>)"
  by (simp add: push_stage_def Let_def get_run_upsert_run)

lemma cmd_run_push_db:
  assumes "EvPush \<in> set (snd (snd (cmd_run e today d)))"
  shows "\<exists>ps. fst (cmd_run e today d) = None \<and>
           fst (snd (cmd_run e today d)) = push_stage e today (before_push e ps d)"
proof -
  obtain ps where body: "cmd_run_body e today d =
      (None, push_stage e today (before_push e ps d),
       [EvFetch, EvSummarize, EvRender, EvSaveDigest, EvPush])"
    using body_reaches_push assms unfolding cmd_run_events by blast
  then show ?thesis
    using cmd_run_ok_db[of e today d] by (auto simp: cmd_run_raises)
qed

lemma base_env_reaches_push:
  "\<not> run_completed (cfg e) (get_run d today) \<Longrightarrow> fetch_papers e = Inr [p] \<Longrightarrow>
   render e = (\<lambda>ps d. Inr doc) \<Longrightarrow> save_digest e = (\<lambda>md txt d. None) \<Longrightarrow>
   EvPush \<in> set (snd (snd (cmd_run e today d)))"
  by (simp add: cmd_run_events cmd_run_body_def Let_def)

text \<open>
  Claim C3, as stated, at an input where it fails: the stored run has status \<open>sent\<close>,
  no channel is configured, so every configured channel is in the recorded set; the
  controller runs the whole pipeline and writes the run record.
\<close>

theorem cmd_run_no_channels_counterexample:
  "map_option status (get_run done_db day) = Some ''sent'' \<and>
   set (push_channels (cfg no_channel_env))
     \<subseteq> set (py_split CHR '','' (sent_channels (the (get_run done_db day)))) \<and>
   snd (snd (cmd_run no_channel_env day done_db))
     = [EvFetch, EvSummarize, EvRender, EvSaveDigest, EvPush] \<and>
   map_option status (get_run (fst (snd (cmd_run no_channel_env day done_db))) day)
     = Some ''rendered''"
  by (simp add: done_run no_channel_env_def base_env_def cmd_run_def cmd_run_body_def
      run_completed_def push_stage_def push_digest_def sent_of_def Let_def
      status_upsert_run)

text \<open>
  Claim C3, amended. When the stored run has status \<open>sent\<close>, at least one channel is
  configured, and every configured channel is among the pieces of the recorded
  sent-channel string (a non-empty string), \<open>cmd_run\<close> returns at once: no event, the
  store as it was.
\<close>

theorem cmd_run_completed_noop:
  assumes "get_run d today = Some r" and "status r = ''sent''"
    and "push_channels (cfg e) \<noteq> []"
    and "set (push_channels (cfg e)) \<subseteq> already_sent r"
  shows "cmd_run e today d = (None, d, [])"
  using assms by (intro cmd_run_skip) (simp add: run_completed_def)

theorem cmd_run_completed_noop_witness:
  "cmd_run base_env day done_db = (None, done_db, [])"
  by (rule cmd_run_completed_noop[OF done_run])
    (simp_all add: base_env_def already_sent_def)

lemma level_le_2: "level run \<le> 2"
  by (simp add: level_def rank_def split: option.splits)

lemma recorded_merged:
  "set (filter (\<lambda>c. c \<noteq> []) (py_split CHR '','' old))
     \<subseteq> set (filter (\<lambda>c. c \<noteq> []) (py_split CHR '','' (merged old ch)))"
proof
  fix c
  let ?xs = "sort (remdups (filter (\<lambda>c. c \<noteq> []) (py_split CHR '','' old) @ [ch]))"
  assume c: "c \<in> set (filter (\<lambda>c. c \<noteq> []) (py_split CHR '','' old))"
  then have in_xs: "c \<in> set ?xs" and ne: "c \<noteq> []" and nc: "CHR '','' \<notin> set c"
    by (auto dest: py_split_pieces)
  have "?xs \<noteq> []"
    using in_xs by (metis empty_iff empty_set)
  then have "py_split CHR '','' (merged old ch) = concat (map (py_split CHR '','') ?xs)"
    unfolding merged_def by (rule py_split_join_concat)
  moreover have "c \<in> set (py_split CHR '','' c)"
    using nc by (simp add: py_split_no_sep)
  ultimately have "c \<in> set (py_split CHR '','' (merged old ch))"
    using in_xs by auto
  then show "c \<in> set (filter (\<lambda>c. c \<noteq> []) (py_split CHR '','' (merged old ch)))"
    using ne by simp
qed

lemma mark_sent_monotone: "monotone_step (get_run d r) (get_run (mark_sent clk r ch d) r)"
proof (cases "get_run d r")
  case None
  then show ?thesis
    by (simp add: monotone_step_def level_def recorded_def)
next
  case (Some run)
  have "level (get_run (mark_sent clk r ch d) r) = 2"
    by (simp add: mark_sent_eq get_run_upsert_run level_def rank_def split: option.splits)
  moreover have "set (recorded (get_run d r)) \<subseteq> set (recorded (get_run (mark_sent clk r ch d) r))"
    using recorded_merged[of "sent_channels run" ch]
    by (simp add: Some mark_sent_eq get_run_upsert_run recorded_def)
  ultimately show ?thesis
    using level_le_2[of "get_run d r"] by (simp add: monotone_step_def)
qed

lemma status_push_stage:
  "map_option status (get_run (push_stage e today d) today)
     \<in> {Some ''empty'', Some ''rendered'', Some ''sent''}"
  by (simp add: push_stage_def Let_def status_upsert_run)

lemma cmd_run_body_run:
  "get_run (fst (snd (cmd_run_body e today d))) today = get_run d today \<or>
   map_option status (get_run (fst (snd (cmd_run_body e today d))) today)
     \<in> {Some ''empty'', Some ''rendered'', Some ''sent''}"
proof (cases "run_completed (cfg e) (get_run d today)")
  case True
  then show ?thesis by (simp add: cmd_run_body_def)
next
  case nc: False
  show ?thesis
  proof (cases "fetch_papers e")
    case (Inl x)
    then show ?thesis using nc by (simp add: cmd_run_body_def)
  next
    case (Inr ps)
    show ?thesis
    proof (cases "ps = []")
      case True
      then show ?thesis
        using nc Inr by (simp add: cmd_run_body_def status_upsert_run)
    next
      case False
      let ?sm = "summarize_papers (repr_str e) (clock e) (gateway e) ps
                   (snd (upsert_papers (clock e) ps d))"
      show ?thesis
      proof (cases "render e (snd ?sm) today")
        case (Inl x)
        then show ?thesis
          using nc Inr False by (simp add: cmd_run_body_def Let_def get_run_frame)
      next
        case doc: (Inr doc)
        show ?thesis
        proof (cases "save_digest e (fst doc) (snd doc) today")
          case None
          then show ?thesis
            using nc Inr False doc status_push_stage[of e today "fst ?sm"]
            by (simp add: cmd_run_body_def Let_def)
        next
          case (Some x)
          then show ?thesis
            using nc Inr False doc by (simp add: cmd_run_body_def Let_def get_run_frame)
        qed
      qed
    qed
  qed
qed

lemma cmd_run_run:
  "get_run (fst (snd (cmd_run e today d))) today = get_run d today \<or>
   map_option status (get_run (fst (snd (cmd_run e today d))) today)
     \<in> {Some ''empty'', Some ''rendered'', Some ''sent'', Some ''failed''}"
proof (cases "fst (cmd_run_body e today d)")
  case None
  then show ?thesis
    using cmd_run_body_run[of e today d] by (auto simp: cmd_run_ok_db)
next
  case (Some x)
  then show ?thesis
    by (simp add: cmd_run_failed_db status_upsert_run)
qed


lemma level_status:
  "map_option status new \<in> {Some ''empty'', Some ''rendered'', Some ''sent''} \<Longrightarrow> 1 \<le> level new"
  by (auto simp: level_def rank_def split: option.splits)

text \<open>
  Claim C6, as stated, at an input where it fails. The stored run has status \<open>sent\<close> and
  records \<open>email\<close>; \<open>qq\<close> is configured too, so the controller runs the pipeline again;
  both pushes fail this time, and the record becomes \<open>rendered\<close> with no channel: the
  status moved backwards and the recorded set lost \<open>email\<close>, with no \<open>failed\<close> involved.
\<close>

theorem run_record_rollback_counterexample:
  "get_run partial_db day =
     Some \<lparr>status = ''sent'', sent_channels = ''email'',
           created_at = ''2024-01-15T08:31:00+00:00''\<rparr> \<and>
   fst (cmd_run base_env day partial_db) = None \<and>
   get_run (fst (snd (cmd_run base_env day partial_db))) day =
     Some \<lparr>status = ''rendered'', sent_channels = [],
           created_at = ''2024-01-15T08:31:00+00:00''\<rparr> \<and>
   was_sent partial_db day ''email'' \<and>
   \<not> was_sent (fst (snd (cmd_run base_env day partial_db))) day ''email'' \<and>
   \<not> monotone_step (get_run partial_db day)
        (get_run (fst (snd (cmd_run base_env day partial_db))) day)"
proof -
  have run: "get_run partial_db day =
     Some \<lparr>status = ''sent'', sent_channels = ''email'',
           created_at = ''2024-01-15T08:31:00+00:00''\<rparr>"
    by (simp add: partial_db_def get_run_def)
  have ev: "EvPush \<in> set (snd (snd (cmd_run base_env day partial_db)))"
    by (rule base_env_reaches_push)
      (simp_all add: run base_env_def run_completed_def already_sent_def)
  have pd: "push_digest base_env = [(''email'', False), (''qq'', False)]"
    by (simp add: push_digest_def push_one_def base_env_def)
  obtain ps where ok: "fst (cmd_run base_env day partial_db) = None"
    and db: "fst (snd (cmd_run base_env day partial_db))
               = push_stage base_env day (before_push base_env ps partial_db)"
    using cmd_run_push_db[OF ev] by blast
  have after: "get_run (fst (snd (cmd_run base_env day partial_db))) day =
     Some \<lparr>status = ''rendered'', sent_channels = [],
           created_at = ''2024-01-15T08:31:00+00:00''\<rparr>"
    by (simp add: db get_run_push_stage get_run_before_push run pd sent_of_def)
  show ?thesis
    using ok by (simp add: run after was_sent_def monotone_step_def level_def rank_def
        recorded_def)
qed

text \<open>
  Claim C6, amended. \<open>mark_sent\<close> never takes a step back: it keeps every recorded
  channel and sets the status \<open>sent\<close>. \<open>cmd_run\<close> on a completed run leaves the store
  as it is. \<open>cmd_run\<close> on a run that is not \<open>sent\<close> and holds no channel never takes a
  step back either, except to \<open>failed\<close>.
\<close>

theorem run_record_monotone:
  "monotone_step (get_run d r) (get_run (mark_sent clk r ch d) r) \<and>
   (run_completed (cfg e) (get_run d today) \<longrightarrow> fst (snd (cmd_run e today d)) = d) \<and>
   (level (get_run d today) < 2 \<and> recorded (get_run d today) = [] \<longrightarrow>
      monotone_step (get_run d today) (get_run (fst (snd (cmd_run e today d))) today))"
proof -
  have skip: "run_completed (cfg e) (get_run d today) \<Longrightarrow> fst (snd (cmd_run e today d)) = d"
    by (simp add: cmd_run_skip)
  have step: "monotone_step (get_run d today) (get_run (fst (snd (cmd_run e today d))) today)"
    if lv: "level (get_run d today) < 2" and rc: "recorded (get_run d today) = []"
  proof -
    let ?new = "get_run (fst (snd (cmd_run e today d))) today"
    consider (same) "?new = get_run d today" | (failed) "map_option status ?new = Some ''failed''"
      | (written) "map_option status ?new \<in> {Some ''empty'', Some ''rendered'', Some ''sent''}"
      using cmd_run_run[of e today d] by auto
    then show ?thesis
    proof cases
      case same
      then show ?thesis by (simp add: monotone_step_def)
    next
      case failed
      then show ?thesis by (simp add: monotone_step_def)
    next
      case written
      then have "1 \<le> level ?new" by (rule level_status)
      then show ?thesis
        using lv rc by (simp add: monotone_step_def)
    qed
  qed
  show ?thesis
    using mark_sent_monotone skip step by blast
qed

theorem run_record_monotone_witness:
  "level (get_run empty_db day) < 2 \<and> recorded (get_run empty_db day) = [] \<and>
   monotone_step (get_run empty_db day) (get_run (fst (snd (cmd_run qq_env day empty_db))) day) \<and>
   run_completed (cfg base_env) (get_run done_db day) \<and>
   fst (snd (cmd_run base_env day done_db)) = done_db"
proof -
  have h1: "level (get_run empty_db day) < 2 \<and> recorded (get_run empty_db day) = []"
    by (simp add: empty_db_def get_run_def level_def recorded_def)
  have h2: "run_completed (cfg base_env) (get_run done_db day)"
    by (simp add: done_run run_completed_def base_env_def already_sent_def)
  have m: "monotone_step (get_run empty_db day)
             (get_run (fst (snd (cmd_run qq_env day empty_db))) day)"
    using run_record_monotone [of empty_db day fixed_clock "''email''" qq_env day] h1 by blast
  have s: "fst (snd (cmd_run base_env day done_db)) = done_db"
    using run_record_monotone [of done_db day fixed_clock "''email''" base_env day] h2 by blast
  show ?thesis
    using h1 h2 m s by blast
qed

text \<open>
  Claim C7. When \<open>cmd_run\<close> reaches the push stage, the status it records is \<open>sent\<close> if
  some channel of \<open>push_digest\<close>'s result is marked as succeeded and \<open>rendered\<close>
  otherwise, which covers the case of no configured channel; the recorded string is the
  comma-joined list of the channels that succeeded in this invocation.
\<close>

theorem push_stage_status:
  assumes "EvPush \<in> set (snd (snd (cmd_run e today d)))"
  shows "map_option status (get_run (fst (snd (cmd_run e today d))) today)
           = Some (if \<exists>ch. (ch, True) \<in> set (push_digest e) then ''sent'' else ''rendered'') \<and>
         map_option sent_channels (get_run (fst (snd (cmd_run e today d))) today)
           = Some (py_join '','' (sent_of (push_digest e))) \<and>
         (push_channels (cfg e) = [] \<longrightarrow>
            map_option status (get_run (fst (snd (cmd_run e today d))) today)
              = Some ''rendered'')"
proof -
  obtain ps where body: "cmd_run_body e today d =
      (None, push_stage e today (before_push e ps d),
       [EvFetch, EvSummarize, EvRender, EvSaveDigest, EvPush])"
    using body_reaches_push assms unfolding cmd_run_events by blast
  have db: "fst (snd (cmd_run e today d)) = push_stage e today (before_push e ps d)"
    using cmd_run_ok_db[of e today d] body by simp
  have none: "push_channels (cfg e) = [] \<Longrightarrow> \<not> (\<exists>ch. (ch, True) \<in> set (push_digest e))"
    by (simp add: push_digest_def)
  show ?thesis
    using none
    by (auto simp: db get_run_push_stage succeeded_iff split: option.splits)
qed

theorem push_stage_status_witness:
  "EvPush \<in> set (snd (snd (cmd_run qq_env day empty_db))) \<and>
   map_option status (get_run (fst (snd (cmd_run qq_env day empty_db))) day) = Some ''sent'' \<and>
   map_option sent_channels (get_run (fst (snd (cmd_run qq_env day empty_db))) day)
     = Some ''qq''"
proof -
  have ev: "EvPush \<in> set (snd (snd (cmd_run qq_env day empty_db)))"
    by (rule base_env_reaches_push)
      (simp_all add: qq_env_def base_env_def run_completed_def get_run_def empty_db_def)
  have pd: "push_digest qq_env = [(''email'', False), (''qq'', True)]"
    by (simp add: push_digest_def push_one_def qq_env_def base_env_def)
  show ?thesis
    using push_stage_status[OF ev] ev by (simp add: pd sent_of_def)
qed

text \<open>
  Claim C8. Whenever the \<open>try\<close> block of \<open>cmd_run\<close> raises \<open>x\<close>, \<open>cmd_run\<close> raises the
  same \<open>x\<close> and the run record of the day has status \<open>failed\<close>. The block raises \<open>x\<close>
  when the fetcher does, when the renderer does, and when writing the digest files does.
\<close>

theorem cmd_run_failure:
  "(fst (cmd_run_body e today d) = Some x \<longrightarrow>
      fst (cmd_run e today d) = Some x \<and>
      map_option status (get_run (fst (snd (cmd_run e today d))) today) = Some ''failed'') \<and>
   (\<not> run_completed (cfg e) (get_run d today) \<and> fetch_papers e = Inl x \<longrightarrow>
      fst (cmd_run_body e today d) = Some x) \<and>
   (\<not> run_completed (cfg e) (get_run d today) \<and> fetch_papers e = Inr ps \<and> ps \<noteq> [] \<and>
    render e (snd (summarize_papers (repr_str e) (clock e) (gateway e) ps
                     (snd (upsert_papers (clock e) ps d)))) today = Inl x \<longrightarrow>
      fst (cmd_run_body e today d) = Some x) \<and>
   (\<not> run_completed (cfg e) (get_run d today) \<and> fetch_papers e = Inr ps \<and> ps \<noteq> [] \<and>
    render e (snd (summarize_papers (repr_str e) (clock e) (gateway e) ps
                     (snd (upsert_papers (clock e) ps d)))) today = Inr doc \<and>
    save_digest e (fst doc) (snd doc) today = Some x \<longrightarrow>
      fst (cmd_run_body e today d) = Some x)"
proof -
  have handler: "fst (cmd_run_body e today d) = Some x \<Longrightarrow>
      fst (cmd_run e today d) = Some x \<and>
      map_option status (get_run (fst (snd (cmd_run e today d))) today) = Some ''failed''"
    by (simp add: cmd_run_raises cmd_run_failed_db status_upsert_run)
  show ?thesis
    using handler by (simp add: cmd_run_body_def Let_def)
qed

theorem cmd_run_failure_witness:
  "fetch_papers fetch_down_env = Inl (OtherException ''ConnectError'') \<and>
   fst (cmd_run fetch_down_env day empty_db) = Some (OtherException ''ConnectError'') \<and>
   map_option status (get_run (fst (snd (cmd_run fetch_down_env day empty_db))) day)
     = Some ''failed''"
  using cmd_run_failure [of fetch_down_env day empty_db "OtherException ''ConnectError''"]
  by (simp add: fetch_down_env_def base_env_def run_completed_def get_run_def empty_db_def)

end
